theory Spec2Isabelle
  imports Main "HOL-Library.Word"
begin

section \<open>The dataset editor (class ProductEditor)\<close>

subsection \<open>Records and the editor state\<close>

text \<open>
  A multi-valued property (\<open>sizes\<close>, \<open>colors\<close>, \<open>categories\<close>) of a product object
  is read by the source through \<open>Array.isArray(x) ? [...x] : (x ? [x] : [])\<close>: it may hold
  an array, a scalar, or nothing. A scalar is truthy when it is not the empty string.
\<close>

datatype fval = Arr "string list" | Scalar string | Absent

fun as_values :: "fval \<Rightarrow> string list" where
  "as_values (Arr xs) = xs"
| "as_values (Scalar v) = (if v \<noteq> [] then [v] else [])"
| "as_values Absent = []"

text \<open>
  A product object. The type parameter is what \<open>product_images\<close> holds: an address of
  an array in the store for the working rows (the array is mutated in place by
  \<open>splice\<close> and \<open>push\<close>, and shared by a shallow copy), the array's contents for the
  snapshot \<open>originalProducts\<close>, which the source only ever reads through
  \<open>JSON.stringify\<close>. \<open>None\<close> is a product without the property.
  The arrays of \<open>sizes\<close>, \<open>colors\<close> and \<open>categories\<close> are never mutated in place
  (\<open>getCurrentValues\<close> copies them and \<open>updateProductValue\<close> assigns a new array), so
  they are held by value. A missing scalar property is represented by the falsy value
  of its type (\<open>''''\<close>, \<open>0\<close>, \<open>False\<close>), which the source reads the same way
  (\<open>product.product_name || ''\<close>, \<open>product.price || 0\<close>). Numbers are only stored and
  passed on, never computed with; they are integers here.
\<close>

record 'i product =
  product_name :: string
  price :: int
  discounted_price :: int
  premium :: bool
  availability :: string
  description :: string
  sizes :: fval
  colors :: fval
  material :: string
  categories :: fval
  product_images :: "'i option"
  url :: string
  timestamp :: string
  extraction_method :: string

type_synonym store = "nat \<Rightarrow> string list"

text \<open>
  The editor: \<open>this.products\<close>, \<open>this.originalProducts\<close>, \<open>this.modifiedRows\<close>, the
  store of image arrays, and the row checkboxes of the rendered table
  (\<open>.row-checkbox\<close>), the only place where the page keeps a selection of rows.
\<close>

record editor =
  products :: "nat product list"
  originalProducts :: "string list product list"
  modifiedRows :: "nat set"
  store :: store
  rowChecked :: "nat set"

datatype error = TypeError

text \<open>What \<open>JSON.stringify\<close> sees of a working row: the images array by its contents.\<close>

definition freeze :: "store \<Rightarrow> nat product \<Rightarrow> string list product" where
  "freeze h p =
     \<lparr>product_name = product_name p, price = price p,
      discounted_price = discounted_price p, premium = premium p,
      availability = availability p, description = description p,
      sizes = sizes p, colors = colors p, material = material p,
      categories = categories p,
      product_images = map_option h (product_images p),
      url = url p, timestamp = timestamp p,
      extraction_method = extraction_method p\<rparr>"

definition with_images :: "string list product \<Rightarrow> nat option \<Rightarrow> nat product" where
  "with_images d r =
     \<lparr>product_name = product_name d, price = price d,
      discounted_price = discounted_price d, premium = premium d,
      availability = availability d, description = description d,
      sizes = sizes d, colors = colors d, material = material d,
      categories = categories d,
      product_images = r,
      url = url d, timestamp = timestamp d,
      extraction_method = extraction_method d\<rparr>"

definition snapshot :: "editor \<Rightarrow> string list product list" where
  "snapshot s = map (freeze (store s)) (products s)"

text \<open>
  A new array gets an address that no working row refers to: the least address above
  all addresses in use.
\<close>

fun next_free :: "nat product list \<Rightarrow> nat" where
  "next_free [] = 0"
| "next_free (p # ps) =
     max (case product_images p of None \<Rightarrow> 0 | Some r \<Rightarrow> Suc r) (next_free ps)"

text \<open>
  \<open>JSON.parse(JSON.stringify(ds))\<close>: every product becomes a new object, every images
  array a new array with the same contents, allocated from address \<open>n\<close> on.
\<close>

fun deep_copy :: "nat \<Rightarrow> string list product list \<Rightarrow> store \<Rightarrow> nat product list \<times> store" where
  "deep_copy n [] h = ([], h)"
| "deep_copy n (d # ds) h =
     (case product_images d of
        None \<Rightarrow>
          (let (ps, h') = deep_copy n ds h in (with_images d None # ps, h'))
      | Some imgs \<Rightarrow>
          (let (ps, h') = deep_copy (Suc n) ds (h(n := imgs))
           in (with_images d (Some n) # ps, h')))"

subsection \<open>Rendering and dirty marking\<close>

text \<open>
  \<open>renderTable\<close> empties the table body and creates every row again from
  \<open>this.products\<close>; the checkbox markup of a new row carries no \<open>checked\<close> attribute.
\<close>

definition renderTable :: "editor \<Rightarrow> editor" where
  "renderTable s = s\<lparr>rowChecked := {}\<rparr>"

definition markModified :: "nat \<Rightarrow> editor \<Rightarrow> editor" where
  "markModified index s = s\<lparr>modifiedRows := insert index (modifiedRows s)\<rparr>"

subsection \<open>Loading\<close>

text \<open>
  The constructor, and \<open>loadProducts\<close> on stored data: \<open>this.products\<close> is the parsed
  data and \<open>this.originalProducts\<close> its JSON round trip.
\<close>

definition new_editor :: editor where
  "new_editor =
     \<lparr>products = [], originalProducts = [], modifiedRows = {},
      store = (\<lambda>_. []), rowChecked = {}\<rparr>"

definition loadProducts :: "string list product list \<Rightarrow> editor \<Rightarrow> editor" where
  "loadProducts stored s =
     (let (ps, h) = deep_copy (next_free (products s)) stored (store s)
      in s\<lparr>products := ps, store := h, originalProducts := stored\<rparr>)"

subsection \<open>Multi-valued fields\<close>

definition known_field :: "string \<Rightarrow> bool" where
  "known_field field \<longleftrightarrow>
     field = ''sizes'' \<or> field = ''colors'' \<or> field = ''materials'' \<or> field = ''categories''"

text \<open>
  \<open>getCurrentValues\<close>. Reading a property of \<open>this.products[index]\<close> throws a
  TypeError when the index is out of range; a field name outside the \<open>switch\<close>
  reads nothing and gives the empty list.
\<close>

definition getCurrentValues :: "string \<Rightarrow> nat \<Rightarrow> editor \<Rightarrow> error + string list" where
  "getCurrentValues field index s =
     (if \<not> known_field field then Inr []
      else if \<not> index < length (products s) then Inl TypeError
      else let product = products s ! index in
        if field = ''sizes'' then Inr (as_values (sizes product))
        else if field = ''colors'' then Inr (as_values (colors product))
        else if field = ''materials'' then
          Inr (if material product \<noteq> [] then [material product] else [])
        else Inr (as_values (categories product)))"

definition set_field :: "string \<Rightarrow> string list \<Rightarrow> nat product \<Rightarrow> nat product" where
  "set_field field val product =
     (if field = ''sizes'' then product\<lparr>sizes := Arr val\<rparr>
      else if field = ''colors'' then product\<lparr>colors := Arr val\<rparr>
      else if field = ''materials'' then
        product\<lparr>material := (case val of [] \<Rightarrow> [] | v # _ \<Rightarrow> v)\<rparr>
      else if field = ''categories'' then product\<lparr>categories := Arr val\<rparr>
      else product)"

definition updateProductValue :: "string \<Rightarrow> string list \<Rightarrow> nat \<Rightarrow> editor \<Rightarrow> error + editor" where
  "updateProductValue field val index s =
     (if \<not> known_field field then Inr (markModified index s)
      else if \<not> index < length (products s) then Inl TypeError
      else Inr (markModified index
             (s\<lparr>products := (products s)[index := set_field field val (products s ! index)]\<rparr>)))"

text \<open>
  \<open>selectOption\<close>: with \<open>multiple\<close> the value is toggled (\<open>filter\<close> when
  \<open>includes\<close> finds it, \<open>push\<close> otherwise), without it the value replaces the list.
  The dropdown display it then updates is not part of the state.
\<close>

definition selectOption :: "string \<Rightarrow> nat \<Rightarrow> string \<Rightarrow> bool \<Rightarrow> editor \<Rightarrow> error + editor" where
  "selectOption field index v multiple s =
     (case getCurrentValues field index s of
        Inl e \<Rightarrow> Inl e
      | Inr currentValues \<Rightarrow>
          (let newValues =
             (if multiple then
                (if v \<in> set currentValues then filter (\<lambda>x. x \<noteq> v) currentValues
                 else currentValues @ [v])
              else [v])
           in case updateProductValue field newValues index s of
                Inl e \<Rightarrow> Inl e
              | Inr s' \<Rightarrow> Inr (markModified index s')))"

definition removeOption :: "string \<Rightarrow> nat \<Rightarrow> string \<Rightarrow> editor \<Rightarrow> error + editor" where
  "removeOption field index v s =
     (case getCurrentValues field index s of
        Inl e \<Rightarrow> Inl e
      | Inr currentValues \<Rightarrow>
          (case updateProductValue field (filter (\<lambda>x. x \<noteq> v) currentValues) index s of
             Inl e \<Rightarrow> Inl e
           | Inr s' \<Rightarrow> Inr (markModified index s')))"

subsection \<open>Images\<close>

text \<open>\<open>xs.splice(i, 1)\<close> for an index \<open>i \<ge> 0\<close>: nothing is removed past the end.\<close>

definition splice1 :: "nat \<Rightarrow> 'a list \<Rightarrow> 'a list" where
  "splice1 i xs = take i xs @ drop (Suc i) xs"

text \<open>
  \<open>removeImageFromModal\<close> and, behind the \<open>confirm\<close> dialog, \<open>removeImage\<close>: the
  array of the row is changed in place, so every row holding the same array sees it.
\<close>

definition removeImageFromModal :: "nat \<Rightarrow> nat \<Rightarrow> editor \<Rightarrow> error + editor" where
  "removeImageFromModal productIndex imageIndex s =
     (if \<not> productIndex < length (products s) then Inl TypeError
      else case product_images (products s ! productIndex) of
        None \<Rightarrow> Inl TypeError
      | Some r \<Rightarrow>
          Inr (markModified productIndex
                 (s\<lparr>store := (store s)(r := splice1 imageIndex (store s r))\<rparr>)))"

definition removeImage :: "nat \<Rightarrow> nat \<Rightarrow> bool \<Rightarrow> editor \<Rightarrow> error + editor" where
  "removeImage productIndex imageIndex confirmed s =
     (if confirmed then
        (case removeImageFromModal productIndex imageIndex s of
           Inl e \<Rightarrow> Inl e
         | Inr s' \<Rightarrow> Inr (renderTable s'))
      else Inr s)"

text \<open>
  \<open>addImage\<close>, for the trimmed text \<open>trimmedUrl\<close> of the prompt (\<open>None\<close> when the
  prompt was cancelled or the text was blank); \<open>valid\<close> is the answer of
  \<open>isValidImageUrl\<close>, which parses the URL and matches a regular expression.
\<close>

definition addImage :: "nat \<Rightarrow> string option \<Rightarrow> bool \<Rightarrow> editor \<Rightarrow> error + editor" where
  "addImage productIndex trimmedUrl valid s =
     (case trimmedUrl of
        None \<Rightarrow> Inr s
      | Some u \<Rightarrow>
          if \<not> valid then Inr s
          else if \<not> productIndex < length (products s) then Inl TypeError
          else case product_images (products s ! productIndex) of
            None \<Rightarrow> Inl TypeError
          | Some r \<Rightarrow>
              Inr (renderTable (markModified productIndex
                     (s\<lparr>store := (store s)(r := store s r @ [u])\<rparr>))))"

subsection \<open>Rows\<close>

text \<open>The object \<open>{}\<close>, which \<open>{ ...undefined }\<close> gives for an index out of range.\<close>

definition empty_object :: "nat product" where
  "empty_object =
     \<lparr>product_name = [], price = 0, discounted_price = 0, premium = False,
      availability = [], description = [], sizes = Absent, colors = Absent,
      material = [], categories = Absent, product_images = None,
      url = [], timestamp = [], extraction_method = []\<rparr>"

text \<open>
  \<open>duplicateRow\<close>: a shallow copy (\<open>{ ...this.products[index] }\<close>) with the name
  suffixed is pushed; the copy holds the same images array as the row.
\<close>

definition duplicateRow :: "nat \<Rightarrow> editor \<Rightarrow> editor" where
  "duplicateRow index s =
     (let productToDuplicate =
            (if index < length (products s) then products s ! index else empty_object);
          productToDuplicate' =
            productToDuplicate\<lparr>product_name := product_name productToDuplicate @ '' (Copy)''\<rparr>
      in renderTable (s\<lparr>products := products s @ [productToDuplicate']\<rparr>))"

text \<open>
  \<open>deleteRow\<close>, behind the \<open>confirm\<close> dialog: \<open>splice(index, 1)\<close> on the rows and
  \<open>modifiedRows.delete(index)\<close>, then the table is rendered again.
\<close>

definition deleteRow :: "nat \<Rightarrow> bool \<Rightarrow> editor \<Rightarrow> editor" where
  "deleteRow index confirmed s =
     (if confirmed then
        renderTable (s\<lparr>products := splice1 index (products s),
                       modifiedRows := modifiedRows s - {index}\<rparr>)
      else s)"

text \<open>\<open>addNewProduct\<close>; \<open>now\<close> is \<open>new Date().toISOString()\<close>.\<close>

definition newProduct :: "string \<Rightarrow> 'i \<Rightarrow> 'i product" where
  "newProduct now imgs =
     \<lparr>product_name = ''New Product'', price = 0, discounted_price = 0,
      premium = False, availability = ''in-stock'', description = [],
      sizes = Arr [], colors = Arr [], material = [], categories = Arr [],
      product_images = Some imgs, url = [], timestamp = now,
      extraction_method = ''manual_add''\<rparr>"

definition addNewProduct :: "string \<Rightarrow> editor \<Rightarrow> editor" where
  "addNewProduct now s =
     (let r = next_free (products s)
      in renderTable (s\<lparr>products := products s @ [newProduct now r],
                        store := (store s)(r := [])\<rparr>))"

text \<open>
  \<open>resetChanges\<close>, behind the \<open>confirm\<close> dialog, and \<open>saveChanges\<close> (the copy it
  writes to \<open>localStorage\<close> is not part of the editor).
\<close>

definition resetChanges :: "bool \<Rightarrow> editor \<Rightarrow> editor" where
  "resetChanges confirmed s =
     (if confirmed then
        (let (ps, h) = deep_copy (next_free (products s)) (originalProducts s) (store s)
         in renderTable (s\<lparr>products := ps, store := h, modifiedRows := {}\<rparr>))
      else s)"

definition saveChanges :: "editor \<Rightarrow> editor" where
  "saveChanges s = renderTable (s\<lparr>modifiedRows := {}\<rparr>)"

subsection \<open>Sequences of edits\<close>

text \<open>
  The edit operations an operator can trigger, each with the answers of the dialogs it
  opens. A handler that throws leaves the editor as it was: every throw above happens
  before the first assignment. A text, price or availability cell only calls
  \<open>markModified\<close>: its value stays in the input element. The modal's remove button
  runs \<open>removeImageFromModal\<close> and then \<open>renderTable\<close>.
\<close>

datatype edit =
    MarkModified nat
  | SelectOption string nat string bool
  | RemoveOption string nat string
  | RemoveImage nat nat bool
  | RemoveImageFromModal nat nat
  | AddImage nat "string option" bool
  | DuplicateRow nat
  | DeleteRow nat bool
  | AddNewProduct string
  | SaveChanges

definition or_unchanged :: "editor \<Rightarrow> error + editor \<Rightarrow> editor" where
  "or_unchanged s r = (case r of Inl _ \<Rightarrow> s | Inr s' \<Rightarrow> s')"

fun apply_edit :: "edit \<Rightarrow> editor \<Rightarrow> editor" where
  "apply_edit (MarkModified i) s = markModified i s"
| "apply_edit (SelectOption f i v m) s = or_unchanged s (selectOption f i v m s)"
| "apply_edit (RemoveOption f i v) s = or_unchanged s (removeOption f i v s)"
| "apply_edit (RemoveImage i j c) s = or_unchanged s (removeImage i j c s)"
| "apply_edit (RemoveImageFromModal i j) s =
     (case removeImageFromModal i j s of Inl _ \<Rightarrow> s | Inr s' \<Rightarrow> renderTable s')"
| "apply_edit (AddImage i u v) s = or_unchanged s (addImage i u v s)"
| "apply_edit (DuplicateRow i) s = duplicateRow i s"
| "apply_edit (DeleteRow i c) s = deleteRow i c s"
| "apply_edit (AddNewProduct now) s = addNewProduct now s"
| "apply_edit SaveChanges s = saveChanges s"

definition apply_edits :: "edit list \<Rightarrow> editor \<Rightarrow> editor" where
  "apply_edits es s = fold apply_edit es s"

text \<open>The images of a row, as the table shows them.\<close>

definition row_images :: "editor \<Rightarrow> nat \<Rightarrow> string list option" where
  "row_images s i =
     (if i < length (products s) then map_option (store s) (product_images (products s ! i))
      else None)"

section \<open>Enrichment before upload (uploadProducts)\<close>

text \<open>
  A record of the batch that \<open>collectProductData\<close> builds: a product by value with
  its \<open>weight\<close>.
\<close>

record batch_product = "string list product" +
  weight :: int

text \<open>
  What a request can end in: \<open>fetch\<close> rejects, the response is not \<open>ok\<close>,
  \<open>response.json()\<close> rejects (or the body's properties cannot be read), or a body.
\<close>

datatype 'a response = Throws | NotOk | JsonThrows | Json 'a











section \<open>The scraping console (class FashionScraper)\<close>

subsection \<open>State and effects\<close>

text \<open>
  Requests, sockets and timers are outside the program; what the console does to them
  is recorded in order. A socket is named by the task id of its address \<open>/ws/taskId\<close>.
  The text of the URL input, and the URLs taken from it, are kept as JavaScript has
  them, by their UTF-16 code units: what \<open>trim\<close> strips is a matter of code units.
\<close>

type_synonym js_string = "16 word list"

datatype request =
    GetActiveTasks
  | PostTerminateTasks "string list" string
  | PostSaveUrls "js_string list"
  | PostScrapeAi "js_string list" nat bool bool

datatype effect =
    Request request
  | NewWebSocket string
  | CloseWebSocket string
  | SetTimeout nat string

text \<open>
  The child nodes of the element \<open>progressLog\<close>: text nodes, and the \<open>div\<close> elements
  that \<open>addLogEntry\<close> appends, kept by the time, stage, details and statistics they
  were made from. \<open>children\<close> are the element nodes only; \<open>firstChild\<close> is the first
  node of any kind.
\<close>

datatype node = TextNode string | LogEntry string string string "(nat \<times> nat) option"

fun is_element :: "node \<Rightarrow> bool" where
  "is_element (TextNode _) = False"
| "is_element (LogEntry _ _ _ _) = True"

definition children :: "node list \<Rightarrow> node list" where
  "children nodes = filter is_element nodes"

text \<open>
  The console's fields, the text of the URL input, the messages of the chat area
  (kind and text, the texts shortened; the empty list is the \<open>empty-state\<close>
  placeholder), the progress log when the page has one, and the effects so far.
\<close>

record scraper =
  isScrapingActive :: bool
  currentTaskId :: "string option"
  websocket :: "string option"
  reconnectAttempts :: nat
  maxReconnectAttempts :: nat
  urlInput :: js_string
  chatMessages :: "(string \<times> string) list"
  progressLog :: "node list option"
  effects :: "effect list"

definition new_scraper :: scraper where
  "new_scraper =
     \<lparr>isScrapingActive = False, currentTaskId = None, websocket = None,
      reconnectAttempts = 0, maxReconnectAttempts = 5, urlInput = [],
      chatMessages = [], progressLog = None, effects = []\<rparr>"

definition emit :: "effect \<Rightarrow> scraper \<Rightarrow> scraper" where
  "emit e s = s\<lparr>effects := effects s @ [e]\<rparr>"

definition addMessage :: "string \<Rightarrow> string \<Rightarrow> scraper \<Rightarrow> scraper" where
  "addMessage content kind s = s\<lparr>chatMessages := chatMessages s @ [(kind, content)]\<rparr>"

definition resetScrapingState :: "scraper \<Rightarrow> scraper" where
  "resetScrapingState s =
     (let s1 = s\<lparr>isScrapingActive := False, currentTaskId := None\<rparr>
      in case websocket s1 of
           None \<Rightarrow> s1
         | Some t \<Rightarrow> (emit (CloseWebSocket t) s1)\<lparr>websocket := None\<rparr>)"

subsection \<open>The progress log\<close>

text \<open>
  \<open>addLogEntry\<close>: nothing without the element; otherwise the entry is appended and,
  when the element then has more than 50 children, its first child node is removed.
  \<open>now\<close> is \<open>new Date().toLocaleTimeString()\<close>.
\<close>

definition addLogEntry :: "string \<Rightarrow> string \<Rightarrow> string \<Rightarrow> (nat \<times> nat) option \<Rightarrow> scraper \<Rightarrow> scraper" where
  "addLogEntry now stage details stats s =
     (case progressLog s of
        None \<Rightarrow> s
      | Some nodes \<Rightarrow>
          (let nodes' = nodes @ [LogEntry now stage details stats]
           in s\<lparr>progressLog :=
                  Some (if length (children nodes') > 50 then tl nodes' else nodes')\<rparr>))"

text \<open>
  The log as \<open>monitorProgress\<close> writes it into the page: the markup has white space
  around its one \<open>div\<close>, which the parser keeps as text nodes.
\<close>

definition initial_log :: "node list" where
  "initial_log =
     [TextNode ''  '', LogEntry [] [] ''AI scraping session started...'' None, TextNode ''  '']"

subsection \<open>The socket\<close>

definition connectWebSocket :: "string \<Rightarrow> scraper \<Rightarrow> scraper" where
  "connectWebSocket taskId s = (emit (NewWebSocket taskId) s)\<lparr>websocket := Some taskId\<rparr>"

definition onopen :: "scraper \<Rightarrow> scraper" where
  "onopen s =
     addMessage ''Real-time connection established'' ''success'' (s\<lparr>reconnectAttempts := 0\<rparr>)"

definition onerror :: "scraper \<Rightarrow> scraper" where
  "onerror s = addMessage ''Connection issue: Falling back to polling updates'' ''error'' s"

text \<open>
  \<open>onclose\<close> of the socket that \<open>connectWebSocket(taskId)\<close> made: the counter is
  incremented first, and the delay is computed from the incremented counter.
\<close>

definition onclose :: "string \<Rightarrow> scraper \<Rightarrow> scraper" where
  "onclose taskId s =
     (if isScrapingActive s \<and> reconnectAttempts s < maxReconnectAttempts s then
        (let s1 = s\<lparr>reconnectAttempts := reconnectAttempts s + 1\<rparr>
         in emit (SetTimeout (2000 * reconnectAttempts s1) taskId) s1)
      else s)"

text \<open>The timers, sockets and requests among the effects, in order.\<close>

definition timeouts :: "effect list \<Rightarrow> nat list" where
  "timeouts es = concat (map (\<lambda>e. case e of SetTimeout d _ \<Rightarrow> [d] | _ \<Rightarrow> []) es)"

definition connections :: "effect list \<Rightarrow> string list" where
  "connections es = concat (map (\<lambda>e. case e of NewWebSocket t \<Rightarrow> [t] | _ \<Rightarrow> []) es)"

definition requests :: "effect list \<Rightarrow> request list" where
  "requests es = concat (map (\<lambda>e. case e of Request r \<Rightarrow> [r] | _ \<Rightarrow> []) es)"

subsection \<open>Submitting\<close>

text \<open>
  \<open>String.prototype.trim\<close> strips the white space and the line terminators of
  ECMAScript from both ends: U+0009 to U+000D, U+0020, U+00A0, U+1680, U+2000 to U+200A,
  U+2028, U+2029, U+202F, U+205F, U+3000 and U+FEFF. Each of them is one code unit.
\<close>

definition is_space :: "16 word \<Rightarrow> bool" where
  "is_space c \<longleftrightarrow>
     c \<in> set [0x0009, 0x000A, 0x000B, 0x000C, 0x000D, 0x0020, 0x00A0, 0x1680,
               0x2000, 0x2001, 0x2002, 0x2003, 0x2004, 0x2005, 0x2006, 0x2007,
               0x2008, 0x2009, 0x200A, 0x2028, 0x2029, 0x202F, 0x205F, 0x3000, 0xFEFF]"

definition trim :: "js_string \<Rightarrow> js_string" where
  "trim s = rev (dropWhile is_space (rev (dropWhile is_space s)))"

text \<open>The split at line feeds (U+000A); the text without one is the only piece.\<close>

fun split_lines :: "js_string \<Rightarrow> js_string list" where
  "split_lines [] = [[]]"
| "split_lines (c # cs) =
     (if c = 0x000A then [] # split_lines cs
      else (case split_lines cs of
              [] \<Rightarrow> [[c]]
            | l # ls \<Rightarrow> (c # l) # ls))"

definition url_list :: "js_string \<Rightarrow> js_string list" where
  "url_list urls = map trim (filter (\<lambda>u. trim u \<noteq> []) (split_lines urls))"

text \<open>
  The body of \<open>/scrape/ai\<close>: \<open>result.success\<close> and, when \<open>result.data\<close> is there,
  \<open>result.data.task_id\<close>.
\<close>

datatype scrape_body = ScrapeBody bool "string option"

definition clearResults :: "scraper \<Rightarrow> scraper" where
  "clearResults s = s\<lparr>progressLog := None\<rparr>"

definition monitorProgress :: "scraper \<Rightarrow> scraper" where
  "monitorProgress s =
     (let s1 = s\<lparr>progressLog := (case progressLog s of None \<Rightarrow> Some initial_log
                                   | Some nodes \<Rightarrow> Some nodes)\<rparr>
      in connectWebSocket (case currentTaskId s1 of None \<Rightarrow> ''null'' | Some t \<Rightarrow> t) s1)"

definition submit_failed :: "scraper \<Rightarrow> scraper" where
  "submit_failed s = resetScrapingState (addMessage ''Failed to start scraping'' ''error'' s)"

text \<open>
  \<open>startScraping\<close>, for the answers \<open>saveResp\<close> of \<open>/api/save-urls\<close> and
  \<open>scrapeResp\<close> of \<open>/scrape/ai\<close>; \<open>maxPages\<close>, \<open>useAiPagination\<close> and
  \<open>aiExtractionMode\<close> are the settings read from the page. Every exception thrown
  after the validation ends in the handler, here \<open>submit_failed\<close>.
\<close>

definition startScraping ::
    "nat \<Rightarrow> bool \<Rightarrow> bool \<Rightarrow> unit response \<Rightarrow> scrape_body response \<Rightarrow> scraper \<Rightarrow> scraper" where
  "startScraping maxPages useAiPagination aiExtractionMode saveResp scrapeResp s =
     (let urls = trim (urlInput s) in
      if urls = [] then addMessage ''Please enter at least one URL to scrape.'' ''error'' s
      else let urlList = url_list urls in
      if urlList = [] then addMessage ''Please enter valid URLs.'' ''error'' s
      else
        (let s1 = (clearResults s)\<lparr>isScrapingActive := True\<rparr>;
             s2 = emit (Request (PostSaveUrls urlList)) s1
         in case saveResp of
              Json _ \<Rightarrow>
                (let s3 = emit (Request (PostScrapeAi urlList maxPages useAiPagination
                                           aiExtractionMode)) s2
                 in case scrapeResp of
                      Json (ScrapeBody True (Some task_id)) \<Rightarrow>
                        monitorProgress
                          (addMessage ''Task started'' ''success''
                             (s3\<lparr>currentTaskId := Some task_id\<rparr>))
                    | _ \<Rightarrow> submit_failed s3)
            | _ \<Rightarrow> submit_failed s2))"

subsection \<open>Clearing\<close>

text \<open>
  The body of \<open>/api/terminate-tasks\<close>: \<open>total_terminated\<close> and, when it is there,
  \<open>failed_terminations\<close>.
\<close>

datatype terminate_body = TerminateBody nat "string list option"

definition terminate_error :: "scraper \<Rightarrow> scraper" where
  "terminate_error s = addMessage ''Error terminating tasks'' ''error'' s"

text \<open>
  \<open>terminateActiveTasks\<close>, for the answers \<open>activeResp\<close> of \<open>/api/active-tasks\<close>
  (the task ids of \<open>active_tasks\<close>, none when the property is missing) and
  \<open>terminateResp\<close> of \<open>/api/terminate-tasks\<close>. Every exception ends in the handler
  of the function itself, here \<open>terminate_error\<close>.
\<close>

definition terminateActiveTasks ::
    "string list response \<Rightarrow> terminate_body response \<Rightarrow> scraper \<Rightarrow> scraper" where
  "terminateActiveTasks activeResp terminateResp s =
     (let s1 = emit (Request GetActiveTasks) s in
      case activeResp of
        Throws \<Rightarrow> terminate_error s1
      | NotOk \<Rightarrow> s1
      | JsonThrows \<Rightarrow> terminate_error s1
      | Json taskIds \<Rightarrow>
          if taskIds = [] then s1
          else
            (let s2 = addMessage ''Terminating active task(s)...'' ''system'' s1;
                 s3 = emit (Request (PostTerminateTasks taskIds ''User clicked Clear button'')) s2
             in case terminateResp of
                  Throws \<Rightarrow> terminate_error s3
                | JsonThrows \<Rightarrow> terminate_error s3
                | NotOk \<Rightarrow>
                    addMessage ''Warning: Some tasks may still be running.'' ''error'' s3
                | Json (TerminateBody total_terminated failed_terminations) \<Rightarrow>
                    (let s4 = (if total_terminated > 0
                               then addMessage ''Successfully terminated task(s)'' ''success'' s3
                               else s3)
                     in case failed_terminations of
                          None \<Rightarrow> terminate_error s4
                        | Some _ \<Rightarrow> s4)))"

text \<open>
  \<open>clearAll\<close>: after the termination the URL input is emptied, the chat area is set
  back to its placeholder (the progress log inside it goes with it), and the state is
  reset.
\<close>

definition clearAll ::
    "string list response \<Rightarrow> terminate_body response \<Rightarrow> scraper \<Rightarrow> scraper" where
  "clearAll activeResp terminateResp s =
     (let s1 = terminateActiveTasks activeResp terminateResp s
      in resetScrapingState (s1\<lparr>urlInput := [], chatMessages := [], progressLog := None\<rparr>))"

section \<open>Scenarios and observations\<close>

subsection \<open>Toggling a value\<close>

text \<open>
  The toggle of a value is \<open>selectOption\<close> with \<open>multiple\<close> set. \<open>toggle_twice\<close>
  runs it two times in a row, \<open>values_after\<close> reads the field afterwards.
\<close>

definition and_then :: "error + 'a \<Rightarrow> ('a \<Rightarrow> error + 'b) \<Rightarrow> error + 'b" where
  "and_then r f = (case r of Inl e \<Rightarrow> Inl e | Inr x \<Rightarrow> f x)"

definition toggle :: "string \<Rightarrow> nat \<Rightarrow> string \<Rightarrow> editor \<Rightarrow> error + editor" where
  "toggle field index v s = selectOption field index v True s"

definition toggle_twice :: "string \<Rightarrow> nat \<Rightarrow> string \<Rightarrow> editor \<Rightarrow> error + editor" where
  "toggle_twice field index v s = and_then (toggle field index v s) (toggle field index v)"

definition values_after :: "string \<Rightarrow> nat \<Rightarrow> error + editor \<Rightarrow> error + string list" where
  "values_after field index r = and_then r (getCurrentValues field index)"

text \<open>
  The values of a field after one toggle, from its values before: \<open>materials\<close> keeps
  the first value only, a field outside the \<open>switch\<close> keeps nothing.
\<close>

definition toggled :: "string \<Rightarrow> string \<Rightarrow> string list \<Rightarrow> string list" where
  "toggled f v cur =
     (if f = ''materials''
      then (if cur = [v] then [] else if cur = [] \<and> v \<noteq> [] then [v] else cur)
      else if \<not> known_field f then []
      else if v \<in> set cur then filter (\<lambda>x. x \<noteq> v) cur else cur @ [v])"

subsection \<open>Example editors\<close>

definition three_rows :: editor where
  "three_rows =
     \<lparr>products = [newProduct ''a'' 0, newProduct ''b'' 1, newProduct ''c'' 2],
      originalProducts = [], modifiedRows = {2}, store = (\<lambda>_. []), rowChecked = {2}\<rparr>"

definition two_sizes :: editor where
  "two_sizes =
     \<lparr>products = [(newProduct ''t'' 0)\<lparr>sizes := Arr [''S'', ''M'']\<rparr>],
      originalProducts = [], modifiedRows = {}, store = (\<lambda>_. []), rowChecked = {}\<rparr>"

definition two_images :: editor where
  "two_images =
     \<lparr>products = [newProduct ''t'' 0],
      originalProducts = [], modifiedRows = {},
      store = (\<lambda>_. [])(0 := [''a.png'', ''b.png'']), rowChecked = {}\<rparr>"

subsection \<open>Appending to the progress log\<close>

type_synonym log_args = "string \<times> string \<times> string \<times> (nat \<times> nat) option"

definition entry_node :: "log_args \<Rightarrow> node" where
  "entry_node a = (case a of (now, stage, details, stats) \<Rightarrow> LogEntry now stage details stats)"

definition add_entry :: "log_args \<Rightarrow> scraper \<Rightarrow> scraper" where
  "add_entry a s =
     (case a of (now, stage, details, stats) \<Rightarrow> addLogEntry now stage details stats s)"

definition add_entries :: "log_args list \<Rightarrow> scraper \<Rightarrow> scraper" where
  "add_entries as s = fold add_entry as s"

definition last_entries :: "nat \<Rightarrow> log_args list \<Rightarrow> node list" where
  "last_entries n as = map entry_node (drop (length as - n) as)"

definition numbered :: "nat \<Rightarrow> log_args" where
  "numbered n = ([], ''extraction'', ''page'', Some (n, 0))"

subsection \<open>Closures in a row\<close>

text \<open>
  One unexpected closure: \<open>onclose\<close> runs and, when it has set a timer, the timer
  fires and \<open>connectWebSocket\<close> runs; the socket it makes is the next one to close.
\<close>

definition unexpected_closure :: "string \<Rightarrow> scraper \<Rightarrow> scraper" where
  "unexpected_closure taskId s =
     (let s1 = onclose taskId s
      in if effects s1 \<noteq> effects s then connectWebSocket taskId s1 else s1)"

definition after_closures :: "nat \<Rightarrow> string \<Rightarrow> scraper \<Rightarrow> scraper" where
  "after_closures n t s =
     s\<lparr>reconnectAttempts := n,
       effects := effects s @
         concat (map (\<lambda>k. [SetTimeout (2000 * k) t, NewWebSocket t]) [1..<Suc n]),
       websocket := (if n = 0 then websocket s else Some t)\<rparr>"

definition monitoring :: scraper where
  "monitoring =
     monitorProgress (new_scraper\<lparr>isScrapingActive := True, currentTaskId := Some ''t1''\<rparr>)"

subsection \<open>Submissions\<close>

definition no_urls :: "js_string \<Rightarrow> bool" where
  "no_urls text = (trim text = [] \<or> url_list (trim text) = [])"

definition submitted_ok :: "unit response \<Rightarrow> scrape_body response \<Rightarrow> bool" where
  "submitted_ok saveResp scrapeResp =
     (case saveResp of
        Json _ \<Rightarrow> (case scrapeResp of Json (ScrapeBody True (Some _)) \<Rightarrow> True | _ \<Rightarrow> False)
      | _ \<Rightarrow> False)"

text \<open>The code units of an ASCII text.\<close>

definition ascii :: "string \<Rightarrow> js_string" where
  "ascii s = map of_char s"

text \<open>
  An input of a space, a line feed, a no-break space and a tab, and an input of one URL.
\<close>

definition blank_input :: scraper where
  "blank_input = new_scraper\<lparr>urlInput := [0x0020, 0x000A, 0x00A0, 0x0009]\<rparr>"

definition one_url :: scraper where
  "one_url = new_scraper\<lparr>urlInput := ascii ''https://shop.example/a''\<rparr>"

subsection \<open>A weight service that records its requests\<close>



text \<open>
  A record as \<open>collectProductData\<close> builds it: \<open>categories\<close> is always an array
  (the result of \<open>getCurrentValues\<close>), the weight is 0.
\<close>

definition collected :: "string \<Rightarrow> string list \<Rightarrow> batch_product" where
  "collected name cats =
     \<lparr>product_name = name, price = 0, discounted_price = 0, premium = False,
      availability = ''in-stock'', description = [], sizes = Arr [], colors = Arr [],
      material = [], categories = Arr cats, product_images = Some [], url = [],
      timestamp = [], extraction_method = ''manual_edit'', weight = 0\<rparr>"


definition five :: "batch_product list" where
  "five = [collected ''a'' [''A''], collected ''b'' [''B''], collected ''c'' [],
           collected ''d'' [''D''], collected ''e'' [''E'']]"

section \<open>Properties of the dataset editor\<close>

subsection \<open>Deleting a row\<close>

text \<open>
  C1, as the code has it. Once confirmed, \<open>deleteRow k\<close> on a valid index removes row
  \<open>k\<close> from the rows and \<open>k\<close> from \<open>modifiedRows\<close>; every other member of
  \<open>modifiedRows\<close> stays as it is (an index above \<open>k\<close> is not decremented). The
  selection of rows is emptied, since the table is rendered again with unchecked boxes.
  Images and the snapshot are untouched.
\<close>

theorem deleteRow_effect:
  assumes "k < length (products s)"
  shows "products (deleteRow k True s) = take k (products s) @ drop (Suc k) (products s) \<and>
         length (products (deleteRow k True s)) = length (products s) - 1 \<and>
         modifiedRows (deleteRow k True s) = modifiedRows s - {k} \<and>
         rowChecked (deleteRow k True s) = {} \<and>
         store (deleteRow k True s) = store s \<and>
         originalProducts (deleteRow k True s) = originalProducts s"
  using assms by (simp add: deleteRow_def renderTable_def splice1_def)

theorem deleteRow_effect_witness:
  "0 < length (products three_rows) \<and>
   map product_name (products (deleteRow 0 True three_rows)) = [''New Product'', ''New Product''] \<and>
   map timestamp (products (deleteRow 0 True three_rows)) = [''b'', ''c''] \<and>
   modifiedRows (deleteRow 0 True three_rows) = {2} \<and>
   rowChecked (deleteRow 0 True three_rows) = {}"
proof -
  have h: "0 < length (products three_rows)" by (simp add: three_rows_def)
  have m: "modifiedRows three_rows - {0} = {2}" by (simp add: three_rows_def)
  have p: "take 0 (products three_rows) @ drop (Suc 0) (products three_rows) =
             [newProduct ''b'' 1, newProduct ''c'' 2]" by (simp add: three_rows_def)
  show ?thesis
    using deleteRow_effect[OF h] h m p by (simp add: newProduct_def)
qed

text \<open>
  C1 as stated fails: with three rows and row 2 modified, deleting row 0 leaves
  \<open>modifiedRows = {2}\<close>. Index 2 was not decremented to 1, and it is no index of the
  two rows that remain.
\<close>

theorem deleteRow_keeps_stale_index:
  "0 < length (products three_rows) \<and>
   2 \<in> modifiedRows three_rows \<and>
   2 \<in> modifiedRows (deleteRow 0 True three_rows) \<and>
   1 \<notin> modifiedRows (deleteRow 0 True three_rows) \<and>
   \<not> 2 < length (products (deleteRow 0 True three_rows))"
  by (simp add: three_rows_def deleteRow_def renderTable_def splice1_def)

subsection \<open>Toggling twice\<close>

lemma toggle_ok:
  assumes "i < length (products s)"
  shows "\<exists>s1. toggle f i v s = Inr s1 \<and> length (products s1) = length (products s)"
  using assms
  by (auto simp: toggle_def selectOption_def getCurrentValues_def
      updateProductValue_def known_field_def markModified_def Let_def)

lemma toggle_values:
  assumes "i < length (products s)"
  shows "\<exists>cur. getCurrentValues f i s = Inr cur \<and>
     (f = ''materials'' \<longrightarrow> length cur \<le> 1 \<and> [] \<notin> set cur) \<and>
     (\<not> known_field f \<longrightarrow> cur = []) \<and>
     values_after f i (toggle f i v s) = Inr (toggled f v cur)"
  using assms unfolding toggled_def
  by (auto simp: values_after_def toggle_def and_then_def selectOption_def getCurrentValues_def
      updateProductValue_def known_field_def set_field_def markModified_def Let_def
      split: list.splits)

lemma toggled_multi:
  "f \<noteq> ''materials'' \<Longrightarrow> known_field f \<Longrightarrow>
     toggled f v cur = (if v \<in> set cur then filter (\<lambda>x. x \<noteq> v) cur else cur @ [v])"
  by (simp add: toggled_def)

lemma toggled_unknown: "\<not> known_field f \<Longrightarrow> toggled f v cur = []"
  by (auto simp: toggled_def known_field_def)

lemma toggled_material:
  "toggled ''materials'' v cur =
     (if cur = [v] then [] else if cur = [] \<and> v \<noteq> [] then [v] else cur)"
  by (simp add: toggled_def)

lemma toggled_twice:
  assumes "f = ''materials'' \<longrightarrow> length cur \<le> 1 \<and> [] \<notin> set cur"
    and "\<not> known_field f \<longrightarrow> cur = []"
  shows "set (toggled f v (toggled f v cur)) = set cur \<and>
    (v \<notin> set cur \<longrightarrow> toggled f v (toggled f v cur) = cur) \<and>
    (v \<in> set cur \<longrightarrow> toggled f v (toggled f v cur) = filter (\<lambda>x. x \<noteq> v) cur @ [v]) \<and>
    (distinct cur \<longrightarrow> distinct (toggled f v cur) \<and> distinct (toggled f v (toggled f v cur)))"
proof -
  consider (unknown) "\<not> known_field f" | (mat) "f = ''materials''"
    | (multi) "known_field f" "f \<noteq> ''materials''" by blast
  then show ?thesis
  proof cases
    case unknown
    then show ?thesis using assms by (simp add: toggled_unknown)
  next
    case mat
    with assms have "cur = [] \<or> (\<exists>m. cur = [m] \<and> m \<noteq> [])"
      by (cases cur) auto
    then show ?thesis unfolding mat toggled_material by auto
  next
    case multi
    show ?thesis
    proof (cases "v \<in> set cur")
      case True
      then show ?thesis by (auto simp: toggled_multi[OF multi(2) multi(1)])
    next
      case False
      then have "filter (\<lambda>x. x \<noteq> v) cur = cur" by (induction cur) auto
      with False show ?thesis by (auto simp: toggled_multi[OF multi(2) multi(1)])
    qed
  qed
qed

text \<open>
  C2, as the code has it. On a valid row, two toggles of \<open>v\<close> in a row both succeed
  and give back the same set of values. The sequence itself comes back when \<open>v\<close> was
  absent; when \<open>v\<close> was present, its occurrences are removed and one \<open>v\<close> is put at
  the end. A field without duplicates has none after the first and after the second
  toggle.
\<close>

theorem toggle_twice_values:
  assumes "i < length (products s)"
  shows "\<exists>cur cur1 cur2.
     getCurrentValues f i s = Inr cur \<and>
     values_after f i (toggle f i v s) = Inr cur1 \<and>
     values_after f i (toggle_twice f i v s) = Inr cur2 \<and>
     set cur2 = set cur \<and>
     (v \<notin> set cur \<longrightarrow> cur2 = cur) \<and>
     (v \<in> set cur \<longrightarrow> cur2 = filter (\<lambda>x. x \<noteq> v) cur @ [v]) \<and>
     (distinct cur \<longrightarrow> distinct cur1 \<and> distinct cur2)"
proof -
  from toggle_values[OF assms, of f v] obtain cur where
    c: "getCurrentValues f i s = Inr cur"
       "f = ''materials'' \<longrightarrow> length cur \<le> 1 \<and> [] \<notin> set cur"
       "\<not> known_field f \<longrightarrow> cur = []"
       "values_after f i (toggle f i v s) = Inr (toggled f v cur)" by blast
  from toggle_ok[OF assms, of f v] obtain s1 where
    s1: "toggle f i v s = Inr s1" "length (products s1) = length (products s)" by blast
  then have i1: "i < length (products s1)" using assms by simp
  from c(4) s1(1) have g1: "getCurrentValues f i s1 = Inr (toggled f v cur)"
    by (simp add: values_after_def and_then_def)
  from toggle_values[OF i1, of f v] g1 have
    "values_after f i (toggle f i v s1) = Inr (toggled f v (toggled f v cur))" by auto
  then have c2: "values_after f i (toggle_twice f i v s) = Inr (toggled f v (toggled f v cur))"
    using s1(1) by (simp add: toggle_twice_def and_then_def)
  show ?thesis
    using c(1) c(4) c2 toggled_twice[OF c(2) c(3), of v] by blast
qed

theorem toggle_twice_values_witness:
  "0 < length (products two_sizes) \<and>
   getCurrentValues ''sizes'' 0 two_sizes = Inr [''S'', ''M''] \<and>
   values_after ''sizes'' 0 (toggle_twice ''sizes'' 0 ''L'' two_sizes) = Inr [''S'', ''M'']"
proof -
  have h: "0 < length (products two_sizes)" by (simp add: two_sizes_def)
  have g: "getCurrentValues ''sizes'' 0 two_sizes = Inr [''S'', ''M'']"
    by (simp add: two_sizes_def getCurrentValues_def known_field_def)
  from toggle_twice_values[OF h, of "''sizes''" "''L''"] g
  have "values_after ''sizes'' 0 (toggle_twice ''sizes'' 0 ''L'' two_sizes) = Inr [''S'', ''M'']"
    by auto
  with h g show ?thesis by simp
qed

text \<open>
  C2 as stated fails: with sizes S, M on row 0, two toggles of S give M, S. The value
  that was removed comes back at the end, not in its place.
\<close>

theorem toggle_twice_reorders:
  "getCurrentValues ''sizes'' 0 two_sizes = Inr [''S'', ''M''] \<and>
   values_after ''sizes'' 0 (toggle_twice ''sizes'' 0 ''S'' two_sizes) = Inr [''M'', ''S'']"
  by (simp add: two_sizes_def values_after_def toggle_twice_def toggle_def and_then_def
      selectOption_def getCurrentValues_def updateProductValue_def known_field_def set_field_def
      markModified_def newProduct_def)

subsection \<open>Resetting\<close>

lemma deep_copy_frozen:
  "deep_copy n ds h = (ps, h') \<Longrightarrow>
     map (freeze h') ps = ds \<and> (\<forall>r < n. h' r = h r)"
proof (induction ds arbitrary: n h ps h')
  case Nil
  then show ?case by simp
next
  case (Cons d ds)
  show ?case
  proof (cases "product_images d")
    case None
    obtain qs k where q: "deep_copy n ds h = (qs, k)" by fastforce
    with Cons.prems None have ps: "ps = with_images d None # qs" and h': "h' = k" by auto
    from Cons.IH[OF q] have "map (freeze k) qs = ds" "\<forall>r<n. k r = h r" by auto
    moreover have "freeze k (with_images d None) = d"
      using None by (simp add: freeze_def with_images_def)
    ultimately show ?thesis using ps h' by simp
  next
    case (Some imgs)
    obtain qs k where q: "deep_copy (Suc n) ds (h(n := imgs)) = (qs, k)" by fastforce
    with Cons.prems Some have ps: "ps = with_images d (Some n) # qs" and h': "h' = k" by auto
    from Cons.IH[OF q] have 1: "map (freeze k) qs = ds"
      and 2: "\<forall>r<Suc n. k r = (h(n := imgs)) r" by auto
    from 2 have "k n = imgs" by simp
    then have "freeze k (with_images d (Some n)) = d"
      using Some by (simp add: freeze_def with_images_def)
    moreover from 2 have "\<forall>r<n. k r = h r" by auto
    ultimately show ?thesis using ps h' 1 by simp
  qed
qed

lemma originalProducts_apply_edit: "originalProducts (apply_edit e s) = originalProducts s"
  by (cases e)
     (auto simp: or_unchanged_def markModified_def selectOption_def removeOption_def
        updateProductValue_def removeImage_def removeImageFromModal_def addImage_def
        renderTable_def duplicateRow_def deleteRow_def addNewProduct_def saveChanges_def Let_def
        split: sum.splits option.splits if_splits)

lemma originalProducts_apply_edits: "originalProducts (apply_edits es s) = originalProducts s"
  unfolding apply_edits_def
  by (induction es arbitrary: s) (simp_all add: originalProducts_apply_edit)

lemma resetChanges_snapshot:
  "snapshot (resetChanges True s) = originalProducts s \<and>
   modifiedRows (resetChanges True s) = {} \<and>
   originalProducts (resetChanges True s) = originalProducts s"
proof -
  obtain ps h where
    dc: "deep_copy (next_free (products s)) (originalProducts s) (store s) = (ps, h)"
    by fastforce
  from deep_copy_frozen[OF dc] have "map (freeze h) ps = originalProducts s" by simp
  then show ?thesis using dc by (simp add: resetChanges_def snapshot_def renderTable_def)
qed

lemma loadProducts_snapshot:
  "originalProducts (loadProducts stored s) = stored \<and> snapshot (loadProducts stored s) = stored"
proof -
  obtain ps h where dc: "deep_copy (next_free (products s)) stored (store s) = (ps, h)"
    by fastforce
  from deep_copy_frozen[OF dc] have "map (freeze h) ps = stored" by simp
  then show ?thesis using dc by (simp add: loadProducts_def snapshot_def)
qed

text \<open>
  C3. After any sequence of edits, a confirmed \<open>resetChanges\<close> makes the rows equal,
  by value, to \<open>originalProducts\<close> as it was before the edits, which no edit changes
  and which is the data that \<open>loadProducts\<close> stored; \<open>modifiedRows\<close> is empty.
\<close>

theorem reset_exact:
  "snapshot (resetChanges True (apply_edits es s)) = originalProducts s \<and>
   modifiedRows (resetChanges True (apply_edits es s)) = {} \<and>
   originalProducts (resetChanges True (apply_edits es s)) = originalProducts s \<and>
   snapshot (resetChanges True (apply_edits es (loadProducts stored s))) = stored"
  using resetChanges_snapshot[of "apply_edits es s"]
    resetChanges_snapshot[of "apply_edits es (loadProducts stored s)"]
    loadProducts_snapshot[of stored s]
  by (simp add: originalProducts_apply_edits)

theorem reset_exact_witness:
  "snapshot (resetChanges True
     (apply_edits [SelectOption ''sizes'' 0 ''L'' True, DuplicateRow 0, RemoveImage 1 0 True,
                   DeleteRow 0 True, AddNewProduct ''now'']
        (loadProducts [newProduct ''t'' [''a.png'']] new_editor))) = [newProduct ''t'' [''a.png'']]"
  using reset_exact[of "[SelectOption ''sizes'' 0 ''L'' True, DuplicateRow 0, RemoveImage 1 0 True,
                   DeleteRow 0 True, AddNewProduct ''now'']" new_editor "[newProduct ''t'' [''a.png'']]"]
  by simp

subsection \<open>Duplicating a row\<close>

lemma duplicateRow_products:
  "i < length (products s) \<Longrightarrow>
     products (duplicateRow i s) =
       products s @
         [(products s ! i)\<lparr>product_name := product_name (products s ! i) @ '' (Copy)''\<rparr>]
     \<and> store (duplicateRow i s) = store s
     \<and> modifiedRows (duplicateRow i s) = modifiedRows s"
  by (simp add: duplicateRow_def renderTable_def Let_def)

lemma removeImage_shared:
  assumes "a < length (products s)" and "product_images (products s ! a) = Some r"
  shows "\<exists>s'. removeImage a j True s = Inr s' \<and> products s' = products s \<and>
           store s' = (store s)(r := splice1 j (store s r))"
  using assms
  by (simp add: removeImage_def removeImageFromModal_def renderTable_def markModified_def)

text \<open>
  C9. For a valid row \<open>i\<close> that has an images array, \<open>duplicateRow i\<close> appends one
  row holding the same array, named as row \<open>i\<close> with \<open>(Copy)\<close> appended. Removing the
  image at any position \<open>j\<close> from the copy, or from row \<open>i\<close>, changes the images of
  both rows in the same way and leaves the name of row \<open>i\<close> alone. A scalar field is
  not shared: selecting a material on the copy leaves row \<open>i\<close> as it was.
\<close>

theorem duplicate_shares_images:
  assumes "i < length (products s)" and "product_images (products s ! i) = Some r"
  shows "\<exists>d. products (duplicateRow i s) = products s @ [d] \<and>
           product_images d = Some r \<and>
           product_name d = product_name (products s ! i) @ '' (Copy)'' \<and>
           (\<exists>s'. removeImage (length (products s)) j True (duplicateRow i s) = Inr s' \<and>
                 row_images s' i = Some (splice1 j (store s r)) \<and>
                 row_images s' (length (products s)) = Some (splice1 j (store s r)) \<and>
                 product_name (products s' ! i) = product_name (products s ! i)) \<and>
           (\<exists>s'. removeImage i j True (duplicateRow i s) = Inr s' \<and>
                 row_images s' i = Some (splice1 j (store s r)) \<and>
                 row_images s' (length (products s)) = Some (splice1 j (store s r)) \<and>
                 product_name (products s' ! i) = product_name (products s ! i)) \<and>
           (\<exists>s'. selectOption ''materials'' (length (products s)) v False (duplicateRow i s)
                   = Inr s' \<and>
                 material (products s' ! length (products s)) = v \<and>
                 products s' ! i = products s ! i)"
proof -
  let ?n = "length (products s)"
  let ?d = "(products s ! i)\<lparr>product_name := product_name (products s ! i) @ '' (Copy)''\<rparr>"
  let ?s1 = "duplicateRow i s"
  from duplicateRow_products[OF assms(1)] have
    p: "products ?s1 = products s @ [?d]" and h: "store ?s1 = store s" by auto
  have n: "?n < length (products ?s1)" and i1: "i < length (products ?s1)"
    using p assms(1) by auto
  have dn: "products ?s1 ! ?n = ?d" and di: "products ?s1 ! i = products s ! i"
    using p assms(1) by (auto simp: nth_append)
  have rn: "product_images (products ?s1 ! ?n) = Some r"
    and ri: "product_images (products ?s1 ! i) = Some r"
    using dn di assms(2) by auto
  from removeImage_shared[OF n rn, of j] obtain s' where
    a: "removeImage ?n j True ?s1 = Inr s'" "products s' = products ?s1"
       "store s' = (store ?s1)(r := splice1 j (store ?s1 r))" by blast
  have A: "row_images s' i = Some (splice1 j (store s r)) \<and>
     row_images s' ?n = Some (splice1 j (store s r)) \<and>
     product_name (products s' ! i) = product_name (products s ! i)"
    using a(2,3) h n i1 rn ri di by (simp add: row_images_def)
  from removeImage_shared[OF i1 ri, of j] obtain s'' where
    b: "removeImage i j True ?s1 = Inr s''" "products s'' = products ?s1"
       "store s'' = (store ?s1)(r := splice1 j (store ?s1 r))" by blast
  have B: "row_images s'' i = Some (splice1 j (store s r)) \<and>
     row_images s'' ?n = Some (splice1 j (store s r)) \<and>
     product_name (products s'' ! i) = product_name (products s ! i)"
    using b(2,3) h n i1 rn ri di by (simp add: row_images_def)
  have C: "\<exists>s'. selectOption ''materials'' ?n v False ?s1 = Inr s' \<and>
                 material (products s' ! ?n) = v \<and> products s' ! i = products s ! i"
    using n i1 di assms(1)
    by (auto simp: selectOption_def getCurrentValues_def updateProductValue_def known_field_def
        set_field_def markModified_def Let_def)
  show ?thesis
    using p assms(2) a(1) A b(1) B C by auto
qed

theorem duplicate_shares_images_witness:
  "0 < length (products two_images) \<and>
   product_images (products two_images ! 0) = Some 0 \<and>
   row_images two_images 0 = Some [''a.png'', ''b.png''] \<and>
   row_images (or_unchanged two_images (removeImage 1 0 True (duplicateRow 0 two_images))) 0
     = Some [''b.png'']"
proof -
  have h: "0 < length (products two_images)" "product_images (products two_images ! 0) = Some 0"
    by (simp_all add: two_images_def newProduct_def)
  have l: "length (products two_images) = 1" by (simp add: two_images_def)
  have st: "store two_images 0 = [''a.png'', ''b.png'']" by (simp add: two_images_def)
  from duplicate_shares_images[OF h, of 0 "[]"] obtain s' where
    "removeImage 1 0 True (duplicateRow 0 two_images) = Inr s'"
    "row_images s' 0 = Some (splice1 0 (store two_images 0))"
    unfolding l by auto
  then have "row_images (or_unchanged two_images
      (removeImage 1 0 True (duplicateRow 0 two_images))) 0 = Some [''b.png'']"
    by (simp add: or_unchanged_def st splice1_def)
  moreover have "row_images two_images 0 = Some [''a.png'', ''b.png'']"
    using h st by (simp add: row_images_def)
  ultimately show ?thesis using h by simp
qed

subsection \<open>Adding a product\<close>

lemma next_free_fresh:
  "p \<in> set ps \<Longrightarrow> product_images p = Some r \<Longrightarrow> r < next_free ps"
  by (induction ps) (auto simp: less_max_iff_disj)

lemma freeze_upd_fresh:
  "\<forall>r. product_images p = Some r \<longrightarrow> r \<noteq> a \<Longrightarrow> freeze (h(a := v)) p = freeze h p"
  by (cases "product_images p") (auto simp: freeze_def)

lemma map_freeze_next_free:
  "map (freeze (h(next_free ps := v))) ps = map (freeze h) ps"
proof (rule map_cong[OF refl])
  fix p assume "p \<in> set ps"
  then have "\<forall>r. product_images p = Some r \<longrightarrow> r \<noteq> next_free ps"
    using next_free_fresh by fastforce
  then show "freeze (h(next_free ps := v)) p = freeze h p" by (rule freeze_upd_fresh)
qed

text \<open>
  C10. \<open>addNewProduct\<close> appends one record, with the listed values and with empty
  sizes, colors, material, categories and images; the rows before it keep their
  values, images included, and \<open>modifiedRows\<close> and the snapshot are unchanged.
\<close>

theorem addNewProduct_appends:
  "\<exists>p. snapshot (addNewProduct now s) = snapshot s @ [p] \<and>
       extraction_method p = ''manual_add'' \<and> product_name p = ''New Product'' \<and>
       price p = 0 \<and> discounted_price p = 0 \<and> availability p = ''in-stock'' \<and>
       premium p = False \<and> sizes p = Arr [] \<and> colors p = Arr [] \<and> material p = [] \<and>
       categories p = Arr [] \<and> product_images p = Some [] \<and>
       take (length (products s)) (products (addNewProduct now s)) = products s \<and>
       length (products (addNewProduct now s)) = Suc (length (products s)) \<and>
       modifiedRows (addNewProduct now s) = modifiedRows s \<and>
       originalProducts (addNewProduct now s) = originalProducts s"
proof -
  have "snapshot (addNewProduct now s) = snapshot s @ [newProduct now []]"
    by (simp add: addNewProduct_def snapshot_def renderTable_def Let_def map_freeze_next_free
        freeze_def newProduct_def)
  moreover have "length (products (addNewProduct now s)) = Suc (length (products s))"
    "take (length (products s)) (products (addNewProduct now s)) = products s"
    "modifiedRows (addNewProduct now s) = modifiedRows s"
    "originalProducts (addNewProduct now s) = originalProducts s"
    by (simp_all add: addNewProduct_def renderTable_def Let_def)
  ultimately show ?thesis by (simp add: newProduct_def)
qed

theorem addNewProduct_appends_witness:
  "length (snapshot (addNewProduct ''now'' three_rows)) = 4 \<and>
   modifiedRows (addNewProduct ''now'' three_rows) = {2}"
proof -
  from addNewProduct_appends[of "''now''" three_rows] obtain p where
    "snapshot (addNewProduct ''now'' three_rows) = snapshot three_rows @ [p]"
    "modifiedRows (addNewProduct ''now'' three_rows) = modifiedRows three_rows" by blast
  then show ?thesis by (simp add: snapshot_def three_rows_def)
qed

section \<open>Properties of the scraping console\<close>

subsection \<open>The progress log\<close>

lemma children_entries: "children (map entry_node as) = map entry_node as"
  by (induction as) (auto simp: children_def entry_node_def)

lemma add_entry_entries:
  assumes "progressLog s = Some (map entry_node as)" and "length as \<le> 50"
  shows "progressLog (add_entry a s) =
           Some ((if length as = 50 then tl (map entry_node as) else map entry_node as)
                 @ [entry_node a])"
proof -
  obtain now stage details stats where a: "a = (now, stage, details, stats)"
    by (cases a) auto
  have e: "LogEntry now stage details stats = entry_node a" by (simp add: a entry_node_def)
  have "children (map entry_node as @ [entry_node a]) = map entry_node (as @ [a])"
    using children_entries[of "as @ [a]"] by simp
  then have len: "length (children (map entry_node as @ [entry_node a])) = Suc (length as)"
    by simp
  show ?thesis
  proof (cases "length as = 50")
    case True
    then have "as \<noteq> []" by auto
    then show ?thesis using assms True len
      by (simp add: add_entry_def a addLogEntry_def e[unfolded a] Let_def)
  next
    case False
    then show ?thesis using assms len
      by (simp add: add_entry_def a addLogEntry_def e[unfolded a] Let_def)
  qed
qed

lemma add_entries_snoc: "add_entries (as @ [a]) s = add_entry a (add_entries as s)"
  by (simp add: add_entries_def)

lemma add_entries_last:
  "progressLog (add_entries as (s\<lparr>progressLog := Some []\<rparr>)) = Some (last_entries 50 as)"
proof (induction as rule: rev_induct)
  case Nil
  then show ?case by (simp add: add_entries_def last_entries_def)
next
  case (snoc a as)
  let ?kept = "drop (length as - 50) as"
  have IH: "progressLog (add_entries as (s\<lparr>progressLog := Some []\<rparr>))
              = Some (map entry_node ?kept)"
    using snoc.IH by (simp add: last_entries_def)
  have le: "length ?kept \<le> 50" by simp
  from add_entry_entries[OF IH le, of a]
  have step: "progressLog (add_entries (as @ [a]) (s\<lparr>progressLog := Some []\<rparr>)) =
     Some ((if length ?kept = 50 then tl (map entry_node ?kept) else map entry_node ?kept)
           @ [entry_node a])"
    by (simp add: add_entries_snoc)
  show ?case
  proof (cases "50 \<le> length as")
    case True
    then have k: "length ?kept = 50" by simp
    have "tl ?kept = drop (Suc (length as - 50)) as"
      by (simp add: drop_Suc drop_tl)
    then have "tl (map entry_node ?kept) = map entry_node (drop (Suc (length as - 50)) as)"
      by (metis map_tl)
    moreover have "Suc (length as) - 50 = Suc (length as - 50)" using True by simp
    ultimately show ?thesis using step k True by (simp add: last_entries_def)
  next
    case False
    then have "length ?kept \<noteq> 50" by simp
    then show ?thesis using step False by (simp add: last_entries_def)
  qed
qed

text \<open>
  On a log element without child nodes, any entries \<open>as\<close> leave exactly the last 50
  of them, in order, all of them elements and at most 50. One more entry is appended
  at the end, and when 50 or more were appended before, exactly the oldest is dropped.
  After 60 entries the log is entries 11 to 60.
\<close>

lemma log_cap:
  "progressLog (add_entries as (s\<lparr>progressLog := Some []\<rparr>)) = Some (last_entries 50 as) \<and>
   children (last_entries 50 as) = last_entries 50 as \<and>
   length (last_entries 50 as) = min (length as) 50 \<and>
   progressLog (add_entry a (add_entries as (s\<lparr>progressLog := Some []\<rparr>))) =
     Some ((if 50 \<le> length as then tl (last_entries 50 as) else last_entries 50 as)
           @ [entry_node a]) \<and>
   (length as = 60 \<longrightarrow>
      progressLog (add_entries as (s\<lparr>progressLog := Some []\<rparr>))
        = Some (map entry_node (drop 10 as)))"
proof -
  have 1: "progressLog (add_entries as (s\<lparr>progressLog := Some []\<rparr>))
             = Some (last_entries 50 as)"
    by (rule add_entries_last)
  have 2: "children (last_entries 50 as) = last_entries 50 as"
    by (simp add: last_entries_def children_entries)
  have 3: "length (last_entries 50 as) = min (length as) 50"
    by (simp add: last_entries_def)
  have le: "length (drop (length as - 50) as) \<le> 50" by simp
  have 4: "progressLog (add_entry a (add_entries as (s\<lparr>progressLog := Some []\<rparr>))) =
     Some ((if 50 \<le> length as then tl (last_entries 50 as) else last_entries 50 as)
           @ [entry_node a])"
    using add_entry_entries[OF 1[unfolded last_entries_def] le, of a]
    by (auto simp: last_entries_def)
  have 5: "length as = 60 \<longrightarrow>
      progressLog (add_entries as (s\<lparr>progressLog := Some []\<rparr>))
        = Some (map entry_node (drop 10 as))"
    using 1 by (simp add: last_entries_def)
  show ?thesis using 1 2 3 4 5 by blast
qed

lemma log_cap_sixty:
  "length (map numbered [0..<60]) = 60 \<and>
   progressLog (add_entries (map numbered [0..<60]) (new_scraper\<lparr>progressLog := Some []\<rparr>)) =
     Some (map entry_node (map numbered [10..<60]))"
proof (intro conjI)
  show l: "length (map numbered [0..<60]) = 60" by simp
  have d: "drop 10 (map numbered [0..<60]) = map numbered [10..<60]"
    by (simp add: drop_map)
  show "progressLog (add_entries (map numbered [0..<60]) (new_scraper\<lparr>progressLog := Some []\<rparr>)) =
     Some (map entry_node (map numbered [10..<60]))"
    using log_cap[of "map numbered [0..<60]" new_scraper "numbered 60"] l
    unfolding d[symmetric] by blast
qed

text \<open>
  C4 fails on the log of the page. \<open>monitorProgress\<close> writes the log with an opening
  line between two white-space text nodes, and \<open>addLogEntry\<close> removes the first child
  node of any kind once there are more than 50 elements. The 50th progress entry makes
  51 elements and only a text node is removed; the next removals take the opening line
  and the second text node. From then on 52 entries stay: after 60 progress entries
  the log holds entries 9 to 60, where the claim has the last 50.
\<close>

theorem page_log_overflow:
  "progressLog monitoring = Some initial_log \<and>
   map_option (length \<circ> children) (progressLog (add_entries (map numbered [0..<50]) monitoring))
     = Some 51 \<and>
   progressLog (add_entries (map numbered [0..<60]) monitoring)
     = Some (map entry_node (map numbered [8..<60])) \<and>
   length (map entry_node (map numbered [8..<60])) = 52"
  by code_simp

subsection \<open>Reconnecting\<close>

lemma onclose_step:
  "onclose t s =
     (if isScrapingActive s \<and> reconnectAttempts s < maxReconnectAttempts s
      then emit (SetTimeout (2000 * (reconnectAttempts s + 1)) t)
             (s\<lparr>reconnectAttempts := reconnectAttempts s + 1\<rparr>)
      else s)"
  by (simp add: onclose_def Let_def)

lemma unexpected_closure_step:
  "unexpected_closure t s =
     (if isScrapingActive s \<and> reconnectAttempts s < maxReconnectAttempts s
      then s\<lparr>reconnectAttempts := reconnectAttempts s + 1,
             effects := effects s @
               [SetTimeout (2000 * (reconnectAttempts s + 1)) t, NewWebSocket t],
             websocket := Some t\<rparr>
      else s)"
  by (simp add: unexpected_closure_def onclose_def Let_def emit_def connectWebSocket_def)

lemma closures_upto:
  assumes "isScrapingActive s" and "maxReconnectAttempts s = 5"
    and "reconnectAttempts s = 0" and "n \<le> 5"
  shows "(unexpected_closure t ^^ n) s = after_closures n t s"
  using assms(4)
proof (induction n)
  case 0
  then show ?case using assms by (simp add: after_closures_def)
next
  case (Suc n)
  then have IH: "(unexpected_closure t ^^ n) s = after_closures n t s" by simp
  from Suc.prems have n: "n < 5" by simp
  have "(unexpected_closure t ^^ Suc n) s = unexpected_closure t ((unexpected_closure t ^^ n) s)"
    by simp
  also have "\<dots> = unexpected_closure t (after_closures n t s)"
    by (simp only: IH)
  also have "\<dots> = after_closures (Suc n) t s"
    using n assms(1,2) by (simp add: unexpected_closure_step after_closures_def)
  finally show ?case .
qed

lemma closures_stop:
  assumes "maxReconnectAttempts s = 5" and "reconnectAttempts s = 5"
  shows "(unexpected_closure t ^^ k) s = s"
proof (induction k)
  case 0
  show ?case by simp
next
  case (Suc k)
  have "(unexpected_closure t ^^ Suc k) s = unexpected_closure t ((unexpected_closure t ^^ k) s)"
    by simp
  also have "\<dots> = unexpected_closure t s" by (simp only: Suc.IH)
  also have "\<dots> = s" using assms by (simp add: unexpected_closure_step)
  finally show ?case .
qed

lemma max_unexpected_closure:
  "maxReconnectAttempts (unexpected_closure t s) = maxReconnectAttempts s"
  by (simp add: unexpected_closure_step)

lemma max_closures:
  "maxReconnectAttempts ((unexpected_closure t ^^ n) s) = maxReconnectAttempts s"
  by (induction n) (simp_all only: funpow.simps o_apply id_apply max_unexpected_closure)

text \<open>
  C5, for a console with \<open>maxReconnectAttempts = 5\<close>, as the constructor sets it.
  A closure while scraping is active and fewer than 5 attempts were made increments
  the counter and sets a timer of 2000 ms times the new count; otherwise it does
  nothing. Six closures in a row, from count 0, set the timers 2000, 4000, 6000, 8000,
  10000 and open five sockets, and the state no longer changes under any further
  closure. \<open>onopen\<close> sets the counter to 0.
\<close>

theorem reconnect_backoff:
  assumes "maxReconnectAttempts s = 5"
  shows "(isScrapingActive s \<and> reconnectAttempts s < 5 \<longrightarrow>
            onclose t s = emit (SetTimeout (2000 * (reconnectAttempts s + 1)) t)
                            (s\<lparr>reconnectAttempts := reconnectAttempts s + 1\<rparr>)) \<and>
         (\<not> isScrapingActive s \<or> 5 \<le> reconnectAttempts s \<longrightarrow> onclose t s = s) \<and>
         (isScrapingActive s \<and> reconnectAttempts s = 0 \<longrightarrow>
            timeouts (effects ((unexpected_closure t ^^ 6) s)) =
              timeouts (effects s) @ [2000, 4000, 6000, 8000, 10000] \<and>
            connections (effects ((unexpected_closure t ^^ 6) s)) =
              connections (effects s) @ [t, t, t, t, t] \<and>
            reconnectAttempts ((unexpected_closure t ^^ 6) s) = 5 \<and>
            (unexpected_closure t ^^ (6 + k)) s = (unexpected_closure t ^^ 6) s) \<and>
         reconnectAttempts (onopen s) = 0"
proof -
  have A: "isScrapingActive s \<and> reconnectAttempts s < 5 \<longrightarrow>
            onclose t s = emit (SetTimeout (2000 * (reconnectAttempts s + 1)) t)
                            (s\<lparr>reconnectAttempts := reconnectAttempts s + 1\<rparr>)"
    using assms by (simp add: onclose_step)
  have B: "\<not> isScrapingActive s \<or> 5 \<le> reconnectAttempts s \<longrightarrow> onclose t s = s"
    using assms by (auto simp: onclose_step)
  have D: "reconnectAttempts (onopen s) = 0"
    by (simp add: onopen_def addMessage_def)
  have C: "timeouts (effects ((unexpected_closure t ^^ 6) s)) =
              timeouts (effects s) @ [2000, 4000, 6000, 8000, 10000] \<and>
            connections (effects ((unexpected_closure t ^^ 6) s)) =
              connections (effects s) @ [t, t, t, t, t] \<and>
            reconnectAttempts ((unexpected_closure t ^^ 6) s) = 5 \<and>
            (unexpected_closure t ^^ (6 + k)) s = (unexpected_closure t ^^ 6) s"
    if act: "isScrapingActive s" and z: "reconnectAttempts s = 0"
  proof -
    let ?s5 = "(unexpected_closure t ^^ 5) s"
    have five: "?s5 =
      s\<lparr>reconnectAttempts := 5,
        effects := effects s @
          concat (map (\<lambda>k. [SetTimeout (2000 * k) t, NewWebSocket t]) [1..<Suc 5]),
        websocket := Some t\<rparr>"
      using closures_upto[OF act assms z, where n=5 and t=t] by (simp add: after_closures_def)
    have up: "[1..<Suc 5] = [1, 2, 3, 4, 5]" by (simp add: upt_rec)
    have m: "maxReconnectAttempts ?s5 = 5" "reconnectAttempts ?s5 = 5"
      using five assms by simp_all
    have stop: "(unexpected_closure t ^^ j) ?s5 = ?s5" for j
      by (rule closures_stop[OF m])
    have split: "(unexpected_closure t ^^ (j + 5)) s = (unexpected_closure t ^^ j) ?s5" for j
      by (simp only: funpow_add o_apply)
    have six: "(unexpected_closure t ^^ 6) s = ?s5"
      using split[of 1] stop[of 1] by simp
    have more: "(unexpected_closure t ^^ (6 + k)) s = ?s5"
      using split[of "Suc k"] stop[of "Suc k"] by (simp add: add.commute)
    show ?thesis
      unfolding more six unfolding five up
      by (simp add: timeouts_def connections_def)
  qed
  show ?thesis using A B C D by blast
qed

theorem reconnect_backoff_witness:
  "maxReconnectAttempts monitoring = 5 \<and> isScrapingActive monitoring \<and>
   reconnectAttempts monitoring = 0 \<and>
   timeouts (effects ((unexpected_closure ''t1'' ^^ 6) monitoring))
     = [2000, 4000, 6000, 8000, 10000] \<and>
   onclose ''t1'' ((unexpected_closure ''t1'' ^^ 6) monitoring)
     = (unexpected_closure ''t1'' ^^ 6) monitoring"
proof -
  have m: "maxReconnectAttempts monitoring = 5" "isScrapingActive monitoring"
     "reconnectAttempts monitoring = 0" "timeouts (effects monitoring) = []"
    by (simp_all add: monitoring_def monitorProgress_def new_scraper_def connectWebSocket_def
        emit_def timeouts_def)
  let ?s6 = "(unexpected_closure ''t1'' ^^ 6) monitoring"
  from reconnect_backoff[OF m(1), of "''t1''" 0] m have
    a: "timeouts (effects ?s6) = [2000, 4000, 6000, 8000, 10000]"
    and b: "reconnectAttempts ?s6 = 5"
    by simp_all
  have five: "maxReconnectAttempts ?s6 = 5"
    using m(1) by (simp only: max_closures)
  from reconnect_backoff[OF five, of "''t1''" 0] b have "onclose ''t1'' ?s6 = ?s6" by simp
  with m a show ?thesis by simp
qed

subsection \<open>Submitting\<close>

lemma submit_failed_idle:
  "\<not> isScrapingActive (submit_failed s) \<and> currentTaskId (submit_failed s) = None \<and>
   websocket (submit_failed s) = None \<and>
   connections (effects (submit_failed s)) = connections (effects s)"
  by (simp add: submit_failed_def addMessage_def resetScrapingState_def emit_def
      connections_def Let_def split: option.splits)

text \<open>
  C7. When the URL text is empty after trimming, or no line of it is left after
  splitting and trimming, \<open>startScraping\<close> only adds one error message: the scraping
  flag, the task id, the socket and the effects (no request, no connection) are as
  before. When the text has a URL and the submission does not succeed (a request
  fails, is not \<open>ok\<close>, has no readable body, or the body reports no success),
  the console is idle afterwards: the flag is off, no task id, no socket, and no
  connection was opened.
\<close>

theorem startScraping_rejects:
  "(no_urls (urlInput s) \<longrightarrow>
      (\<exists>msg. startScraping maxPages useAi aiMode saveResp scrapeResp s =
               s\<lparr>chatMessages := chatMessages s @ [(''error'', msg)]\<rparr>)) \<and>
   (\<not> no_urls (urlInput s) \<and> \<not> submitted_ok saveResp scrapeResp \<longrightarrow>
      \<not> isScrapingActive (startScraping maxPages useAi aiMode saveResp scrapeResp s) \<and>
      currentTaskId (startScraping maxPages useAi aiMode saveResp scrapeResp s) = None \<and>
      websocket (startScraping maxPages useAi aiMode saveResp scrapeResp s) = None \<and>
      connections (effects (startScraping maxPages useAi aiMode saveResp scrapeResp s)) =
        connections (effects s))"
proof -
  have A: "\<exists>msg. startScraping maxPages useAi aiMode saveResp scrapeResp s =
               s\<lparr>chatMessages := chatMessages s @ [(''error'', msg)]\<rparr>"
    if "no_urls (urlInput s)"
    using that by (auto simp: no_urls_def startScraping_def addMessage_def Let_def)
  have B: "\<not> isScrapingActive (startScraping maxPages useAi aiMode saveResp scrapeResp s) \<and>
      currentTaskId (startScraping maxPages useAi aiMode saveResp scrapeResp s) = None \<and>
      websocket (startScraping maxPages useAi aiMode saveResp scrapeResp s) = None \<and>
      connections (effects (startScraping maxPages useAi aiMode saveResp scrapeResp s)) =
        connections (effects s)"
    if a: "\<not> no_urls (urlInput s) \<and> \<not> submitted_ok saveResp scrapeResp"
  proof -
    let ?urls = "url_list (trim (urlInput s))"
    let ?s2 = "emit (Request (PostSaveUrls ?urls)) ((clearResults s)\<lparr>isScrapingActive := True\<rparr>)"
    let ?s3 = "emit (Request (PostScrapeAi ?urls maxPages useAi aiMode)) ?s2"
    from a have "startScraping maxPages useAi aiMode saveResp scrapeResp s = submit_failed ?s2 \<or>
       startScraping maxPages useAi aiMode saveResp scrapeResp s = submit_failed ?s3"
      by (auto simp: no_urls_def submitted_ok_def startScraping_def Let_def
          split: response.splits scrape_body.splits bool.splits option.splits)
    moreover have "connections (effects ?s2) = connections (effects s)"
       "connections (effects ?s3) = connections (effects s)"
      by (simp_all add: emit_def clearResults_def connections_def)
    ultimately show ?thesis
      using submit_failed_idle[of ?s2] submit_failed_idle[of ?s3] by auto
  qed
  show ?thesis using A B by blast
qed

theorem startScraping_rejects_witness:
  "no_urls (urlInput blank_input) \<and>
   startScraping 50 True True (Json ()) (Json (ScrapeBody True (Some ''t1''))) blank_input =
     blank_input\<lparr>chatMessages := [(''error'', ''Please enter at least one URL to scrape.'')]\<rparr> \<and>
   \<not> no_urls (urlInput one_url) \<and> \<not> submitted_ok (Json ()) NotOk \<and>
   \<not> isScrapingActive (startScraping 50 True True (Json ()) NotOk one_url) \<and>
   currentTaskId (startScraping 50 True True (Json ()) NotOk one_url) = None \<and>
   websocket (startScraping 50 True True (Json ()) NotOk one_url) = None"
proof -
  have b: "no_urls (urlInput blank_input)"
    by (simp add: blank_input_def no_urls_def trim_def is_space_def)
  have u: "\<not> no_urls (urlInput one_url)"
    by (simp add: one_url_def ascii_def no_urls_def trim_def is_space_def url_list_def)
  have f: "\<not> submitted_ok (Json ()) NotOk" by (simp add: submitted_ok_def)
  have c: "chatMessages blank_input = []" by (simp add: blank_input_def new_scraper_def)
  from startScraping_rejects[of blank_input 50 True True "Json ()"
      "Json (ScrapeBody True (Some ''t1''))"] b c
  obtain msg where m: "startScraping 50 True True (Json ()) (Json (ScrapeBody True (Some ''t1'')))
      blank_input = blank_input\<lparr>chatMessages := [(''error'', msg)]\<rparr>" by auto
  have "chatMessages (startScraping 50 True True (Json ()) (Json (ScrapeBody True (Some ''t1'')))
      blank_input) = [(''error'', ''Please enter at least one URL to scrape.'')]"
    by (simp add: startScraping_def blank_input_def trim_def is_space_def addMessage_def
        new_scraper_def)
  with m have "msg = ''Please enter at least one URL to scrape.''" by simp
  with m have 1: "startScraping 50 True True (Json ()) (Json (ScrapeBody True (Some ''t1'')))
      blank_input =
      blank_input\<lparr>chatMessages := [(''error'', ''Please enter at least one URL to scrape.'')]\<rparr>"
    by simp
  from startScraping_rejects[of one_url 50 True True "Json ()" NotOk] u f
  have 2: "\<not> isScrapingActive (startScraping 50 True True (Json ()) NotOk one_url) \<and>
   currentTaskId (startScraping 50 True True (Json ()) NotOk one_url) = None \<and>
   websocket (startScraping 50 True True (Json ()) NotOk one_url) = None" by blast
  show ?thesis using b u f 1 2 by blast
qed

subsection \<open>Clearing\<close>

lemma resetScrapingState_idle:
  "\<not> isScrapingActive (resetScrapingState s) \<and> currentTaskId (resetScrapingState s) = None \<and>
   websocket (resetScrapingState s) = None \<and>
   requests (effects (resetScrapingState s)) = requests (effects s) \<and>
   effects (resetScrapingState s) =
     effects s @ (case websocket s of None \<Rightarrow> [] | Some t \<Rightarrow> [CloseWebSocket t])"
  by (simp add: resetScrapingState_def emit_def requests_def Let_def split: option.splits)

text \<open>
  C8. Whatever the two requests answer, \<open>clearAll\<close> ends with the scraping flag off,
  no task id and no socket; a socket that was held is closed as the last effect.
  It asks for the active tasks and, when the listing gives task ids, asks next to
  terminate all of them in one request.
\<close>

theorem clearAll_idle:
  "\<not> isScrapingActive (clearAll activeResp terminateResp s) \<and>
   currentTaskId (clearAll activeResp terminateResp s) = None \<and>
   websocket (clearAll activeResp terminateResp s) = None \<and>
   (\<forall>t. websocket s = Some t \<longrightarrow>
        last (effects (clearAll activeResp terminateResp s)) = CloseWebSocket t) \<and>
   requests (effects (clearAll activeResp terminateResp s)) =
     requests (effects s) @
       (case activeResp of
          Json taskIds \<Rightarrow>
            if taskIds = [] then [GetActiveTasks]
            else [GetActiveTasks, PostTerminateTasks taskIds ''User clicked Clear button'']
        | _ \<Rightarrow> [GetActiveTasks])"
proof -
  let ?s1 = "terminateActiveTasks activeResp terminateResp s"
  let ?s2 = "?s1\<lparr>urlInput := [], chatMessages := [], progressLog := None\<rparr>"
  have w: "websocket ?s1 = websocket s"
    by (simp add: terminateActiveTasks_def Let_def emit_def addMessage_def terminate_error_def
        split: response.splits terminate_body.splits option.splits)
  have r: "requests (effects ?s1) =
     requests (effects s) @
       (case activeResp of
          Json taskIds \<Rightarrow>
            if taskIds = [] then [GetActiveTasks]
            else [GetActiveTasks, PostTerminateTasks taskIds ''User clicked Clear button'']
        | _ \<Rightarrow> [GetActiveTasks])"
    by (simp add: terminateActiveTasks_def Let_def emit_def addMessage_def terminate_error_def
        requests_def split: response.splits terminate_body.splits option.splits)
  have c: "clearAll activeResp terminateResp s = resetScrapingState ?s2"
    by (simp add: clearAll_def Let_def)
  show ?thesis
    unfolding c using resetScrapingState_idle[of ?s2] w r by auto
qed

theorem clearAll_idle_witness:
  "websocket monitoring = Some ''t1'' \<and>
   \<not> isScrapingActive (clearAll (Json [''t1'', ''t2'']) (Json (TerminateBody 1 (Some [''t2''])))
        monitoring) \<and>
   last (effects (clearAll (Json [''t1'', ''t2'']) (Json (TerminateBody 1 (Some [''t2''])))
        monitoring)) = CloseWebSocket ''t1'' \<and>
   requests (effects (clearAll (Json [''t1'', ''t2'']) (Json (TerminateBody 1 (Some [''t2''])))
        monitoring)) =
     [GetActiveTasks, PostTerminateTasks [''t1'', ''t2''] ''User clicked Clear button'']"
proof -
  have w: "websocket monitoring = Some ''t1''" "requests (effects monitoring) = []"
    by (simp_all add: monitoring_def monitorProgress_def new_scraper_def connectWebSocket_def
        emit_def requests_def)
  show ?thesis
    using clearAll_idle[of "Json [''t1'', ''t2'']" "Json (TerminateBody 1 (Some [''t2'']))"
        monitoring] w
    by simp
qed

section \<open>Properties of the enrichment\<close>







end
